theory Spec2Isabelle
  imports Complex_Main "HOL-Library.AList" "HOL-Library.Sublist"
begin

section \<open>Data model of \<open>src/App.tsx\<close>\<close>

text \<open>
  The development embeds the trail model, the curve interpolator, the per-frame update
  and the three pointer handlers of the component \<open>NeonLaserTrail\<close>. A JavaScript
  \<open>number\<close> that holds a coordinate, a hue, an opacity or a distance is a \<open>real\<close>
  here; identifiers and the trail counter are integers. Canvas drawing only reads the
  registry and is not part of the state.
\<close>

record trail_point =
  point_x :: real
  point_y :: real
  alpha :: real
  hue :: real

record trail =
  points :: "trail_point list"
  baseHue :: real
  cumulativeDistance :: real
  lastPoint :: "(real \<times> real) option"
  lastUpdateTime :: nat
  trailId :: nat

text \<open>
  The refs of the component. \<open>activeTrailsMap\<close> is a JavaScript \<open>Map\<close> from touch
  identifier to trail id: an association list with distinct keys in insertion order,
  read with \<open>map_of\<close>, written with \<open>AList.update\<close>.
\<close>

record state =
  trailsRef :: "trail list"
  hueRef :: real
  activeTrailsMap :: "(int \<times> nat) list"
  activeMouseTrailRef :: "nat option"
  trailIdCounterRef :: nat
  isDrawingRef :: bool

definition MIN_DISTANCE :: real where
  "MIN_DISTANCE = 1"

definition FADE_SPEED :: real where
  "FADE_SPEED = 6 / 1000"

definition COLOR_PHASE_DISTANCE :: real where
  "COLOR_PHASE_DISTANCE = 800"

definition initial_state :: state where
  "initial_state =
     \<lparr>trailsRef = [], hueRef = 0, activeTrailsMap = [], activeMouseTrailRef = None,
      trailIdCounterRef = 0, isDrawingRef = False\<rparr>"

text \<open>
  The remainder operator \<open>%\<close> of JavaScript: the quotient is truncated towards zero,
  so the result has the sign of the dividend.
\<close>

definition js_rem :: "real \<Rightarrow> real \<Rightarrow> real" where
  "js_rem a b = a - b * of_int (if 0 \<le> a / b then \<lfloor>a / b\<rfloor> else \<lceil>a / b\<rceil>)"

section \<open>Curve interpolator\<close>

definition catmullRom :: "real \<Rightarrow> real \<Rightarrow> real \<Rightarrow> real \<Rightarrow> real \<Rightarrow> real" where
  "catmullRom t p0 p1 p2 p3 =
     (let v0 = (p2 - p0) * (1 / 2);
          v1 = (p3 - p1) * (1 / 2);
          t2 = t * t;
          t3 = t * t2
      in (2 * p1 - 2 * p2 + v0 + v1) * t3 + (- 3 * p1 + 3 * p2 - 2 * v0 - v1) * t2
         + v0 * t + p1)"

datatype error = TypeError

text \<open>
  \<open>points[i]\<close> outside the array is \<open>undefined\<close>, and reading \<open>p1.alpha\<close> from it
  throws. When \<open>points[i]\<close> exists, the three clamped indices are in range as well.
\<close>

definition getInterpolatedPoint :: "trail_point list \<Rightarrow> int \<Rightarrow> real \<Rightarrow> error + trail_point" where
  "getInterpolatedPoint pts i t =
     (if 0 \<le> i \<and> i < int (length pts) then
        (let p0 = pts ! nat (max 0 (i - 1));
             p1 = pts ! nat i;
             p2 = pts ! nat (min (int (length pts) - 1) (i + 1));
             p3 = pts ! nat (min (int (length pts) - 1) (i + 2));
             a = alpha p1 + (alpha p2 - alpha p1) * t
         in Inr \<lparr>point_x = catmullRom t (point_x p0) (point_x p1) (point_x p2) (point_x p3),
                 point_y = catmullRom t (point_y p0) (point_y p1) (point_y p2) (point_y p3),
                 alpha = max 0 (min 1 a),
                 hue = catmullRom t (hue p0) (hue p1) (hue p2) (hue p3)\<rparr>)
      else Inl TypeError)"

section \<open>Per-frame update\<close>

text \<open>
  The state effect of one call of \<open>render\<close>. Inside \<open>forEach\<close> a trail with fewer
  than two points is skipped; every other trail has all its points faded in place. After
  the loop the registry is rebuilt: each trail keeps its points of positive opacity, and
  the trails left with more than one point are kept. Every stored point is an object of
  its own (the handlers push fresh object literals and \<open>filter\<close> copies none), so a
  point is faded once per tick and the in-place write is the \<open>map\<close> below. The strokes
  that the loop draws between the two steps do not enter the state.
\<close>

definition fade_point :: "trail_point \<Rightarrow> trail_point" where
  "fade_point p = p\<lparr>alpha := max (alpha p - FADE_SPEED) 0\<rparr>"

definition fade_trail :: "trail \<Rightarrow> trail" where
  "fade_trail tr =
     (if length (points tr) < 2 then tr
      else tr\<lparr>points := map fade_point (points tr)\<rparr>)"

definition prune_points :: "trail \<Rightarrow> trail" where
  "prune_points tr = tr\<lparr>points := filter (\<lambda>p. alpha p > 0) (points tr)\<rparr>"

definition render :: "state \<Rightarrow> state" where
  "render s =
     s\<lparr>trailsRef :=
         filter (\<lambda>tr. length (points tr) > 1)
           (map prune_points (map fade_trail (trailsRef s)))\<rparr>"

section \<open>Pointer events\<close>

text \<open>
  A touch contact as the handlers read it. A pointer event is a mouse event with its
  client coordinates, or a touch event with its list \<open>touches\<close> (all contacts on the
  surface, given as the first one and the others) and its list \<open>changedTouches\<close>. The
  browser lists at least one contact in \<open>touches\<close> of a touchstart or touchmove event,
  so the type has a first contact; the fallback of \<open>getPos\<close> for a touch event with an
  empty \<open>touches\<close> reads coordinates that such an event does not have and is outside
  the model.
\<close>

record touch =
  touch_identifier :: int
  clientX :: real
  clientY :: real

datatype pointer_event =
    MouseEvent real real
  | TouchEvent touch "touch list" "touch list"

text \<open>
  \<open>handleEnd\<close> reads only whether it got an event, whether that event has
  \<open>changedTouches\<close>, and the identifiers in that list.
\<close>

datatype end_event =
    NoEvent
  | MouseEnd
  | TouchEnd "touch list"

fun getPos :: "pointer_event \<Rightarrow> real \<times> real" where
  "getPos (TouchEvent t0 ts cs) = (clientX t0, clientY t0)"
| "getPos (MouseEvent mx my) = (mx, my)"

definition getDistance :: "real \<times> real \<Rightarrow> real \<times> real \<Rightarrow> real" where
  "getDistance p1 p2 = sqrt ((fst p1 - fst p2) ^ 2 + (snd p1 - snd p2) ^ 2)"

definition findTrailById :: "nat \<Rightarrow> trail list \<Rightarrow> trail option" where
  "findTrailById tid trs = find (\<lambda>tr. trailId tr = tid) trs"

text \<open>
  \<open>handleMove\<close> mutates the trail object that \<open>findTrailById\<close> returned: the first
  trail of the registry with that id.
\<close>

fun update_trail :: "nat \<Rightarrow> (trail \<Rightarrow> trail) \<Rightarrow> trail list \<Rightarrow> trail list" where
  "update_trail tid f [] = []"
| "update_trail tid f (tr # trs) =
     (if trailId tr = tid then f tr # trs else tr # update_trail tid f trs)"

section \<open>Pointer handlers\<close>

text \<open>\<open>now\<close> is the value of \<open>Date.now()\<close> at the call.\<close>

definition handleStart :: "nat \<Rightarrow> pointer_event \<Rightarrow> state \<Rightarrow> state" where
  "handleStart now e s =
     (let (px, py) = getPos e;
          bh = js_rem (hueRef s + 30) 360;
          tid = trailIdCounterRef s;
          newTrail =
            \<lparr>points = [\<lparr>point_x = px, point_y = py, alpha = 1, hue = bh\<rparr>,
                       \<lparr>point_x = px, point_y = py, alpha = 1, hue = bh\<rparr>],
             baseHue = bh, cumulativeDistance = 0, lastPoint = Some (px, py),
             lastUpdateTime = now, trailId = tid\<rparr>
      in s\<lparr>hueRef := bh,
           trailIdCounterRef := tid + 1,
           trailsRef := trailsRef s @ [newTrail],
           activeTrailsMap :=
             (case e of
                TouchEvent t0 ts cs \<Rightarrow> AList.update (touch_identifier t0) tid (activeTrailsMap s)
              | MouseEvent mx my \<Rightarrow> activeTrailsMap s),
           activeMouseTrailRef :=
             (case e of
                TouchEvent t0 ts cs \<Rightarrow> activeMouseTrailRef s
              | MouseEvent mx my \<Rightarrow> Some tid),
           isDrawingRef := True\<rparr>)"

definition append_point :: "real \<times> real \<Rightarrow> trail \<Rightarrow> trail" where
  "append_point pos tr =
     (let distanceTraveled =
            (case lastPoint tr of Some lp \<Rightarrow> getDistance pos lp | None \<Rightarrow> 0);
          cd = cumulativeDistance tr + distanceTraveled;
          colorProgress = js_rem cd COLOR_PHASE_DISTANCE / COLOR_PHASE_DISTANCE;
          currentHue = js_rem (baseHue tr + colorProgress * 360) 360
      in tr\<lparr>cumulativeDistance := cd,
            points := points tr @
              [\<lparr>point_x = fst pos, point_y = snd pos, alpha = 1, hue = currentHue\<rparr>],
            lastPoint := Some pos\<rparr>)"

text \<open>The trail id that \<open>handleMove\<close> resolves for the pointer of the event.\<close>

definition boundTrailId :: "pointer_event \<Rightarrow> state \<Rightarrow> nat option" where
  "boundTrailId e s =
     (case e of
        TouchEvent t0 ts cs \<Rightarrow> map_of (activeTrailsMap s) (touch_identifier t0)
      | MouseEvent mx my \<Rightarrow> activeMouseTrailRef s)"

definition handleMove :: "pointer_event \<Rightarrow> state \<Rightarrow> state" where
  "handleMove e s =
     (case boundTrailId e s of
        None \<Rightarrow> s
      | Some tid \<Rightarrow>
          (case findTrailById tid (trailsRef s) of
             None \<Rightarrow>
               (let m = filter (\<lambda>(k, v). v \<noteq> tid) (activeTrailsMap s)
                in s\<lparr>activeTrailsMap := m,
                     isDrawingRef := (if m = [] then False else isDrawingRef s)\<rparr>)
           | Some currentTrail \<Rightarrow>
               (if (case lastPoint currentTrail of
                      Some lp \<Rightarrow> getDistance (getPos e) lp < MIN_DISTANCE
                    | None \<Rightarrow> False)
                then s
                else s\<lparr>trailsRef :=
                        update_trail tid (append_point (getPos e)) (trailsRef s)\<rparr>)))"

definition handleEnd :: "end_event \<Rightarrow> state \<Rightarrow> state" where
  "handleEnd e s =
     (let s1 =
            (case e of
               NoEvent \<Rightarrow> s\<lparr>activeMouseTrailRef := None\<rparr>
             | TouchEnd cs \<Rightarrow>
                 s\<lparr>activeTrailsMap :=
                     fold (\<lambda>c m. AList.delete (touch_identifier c) m) cs (activeTrailsMap s)\<rparr>
             | MouseEnd \<Rightarrow> s\<lparr>activeMouseTrailRef := None\<rparr>)
      in if activeTrailsMap s1 = [] \<and> activeMouseTrailRef s1 = None
         then s1\<lparr>isDrawingRef := False\<rparr> else s1)"

section \<open>Runs of the component\<close>

text \<open>
  Handlers and ticks run on one thread, one at a time, so a history of the component is a
  list of operations applied to the initial state.
\<close>

datatype operation =
    Start nat pointer_event
  | Move pointer_event
  | End end_event
  | Tick

fun step :: "operation \<Rightarrow> state \<Rightarrow> state" where
  "step (Start now e) s = handleStart now e s"
| "step (Move e) s = handleMove e s"
| "step (End e) s = handleEnd e s"
| "step Tick s = render s"

definition run :: "operation list \<Rightarrow> state \<Rightarrow> state" where
  "run ops s = fold step ops s"

section \<open>Invariant of the reachable states\<close>

text \<open>
  What holds of a trail between two operations: its id was handed out by the counter, it
  has at least two points, every opacity is positive and at most 1, the distance
  travelled is not negative, the base hue is in \<open>[0, 360)\<close> and a last position is
  recorded. In a state the trail ids are pairwise distinct and the hue anchor is in
  \<open>[0, 360)\<close>.
\<close>

definition trail_ok :: "nat \<Rightarrow> trail \<Rightarrow> bool" where
  "trail_ok c tr \<longleftrightarrow>
     trailId tr < c \<and> 2 \<le> length (points tr)
     \<and> list_all (\<lambda>p. 0 < alpha p \<and> alpha p \<le> 1) (points tr)
     \<and> 0 \<le> cumulativeDistance tr \<and> 0 \<le> baseHue tr \<and> baseHue tr < 360
     \<and> lastPoint tr \<noteq> None"

definition state_inv :: "state \<Rightarrow> bool" where
  "state_inv s \<longleftrightarrow>
     distinct (map trailId (trailsRef s))
     \<and> list_all (trail_ok (trailIdCounterRef s)) (trailsRef s)
     \<and> 0 \<le> hueRef s \<and> hueRef s < 360"

text \<open>
  The registry operation \<open>advanceFrame(fadeSpeed)\<close> in the words of the
  specification: for every trail, decrease the opacity of every point by \<open>fadeSpeed\<close>
  with floor 0, then remove the points with opacity \<open>\<le> 0\<close>, then remove the trails
  whose remaining point count is \<open>\<le> 1\<close>.
\<close>

definition advanceFrame :: "real \<Rightarrow> trail list \<Rightarrow> trail list" where
  "advanceFrame fadeSpeed trs =
     (let faded = map (\<lambda>tr. tr\<lparr>points := map (\<lambda>p. p\<lparr>alpha := max (alpha p - fadeSpeed) 0\<rparr>) (points tr)\<rparr>) trs;
          pruned = map (\<lambda>tr. tr\<lparr>points := filter (\<lambda>p. \<not> alpha p \<le> 0) (points tr)\<rparr>) faded
      in filter (\<lambda>tr. \<not> length (points tr) \<le> 1) pruned)"

text \<open>The first two stages of \<open>advanceFrame\<close> on one trail.\<close>

definition spec_fade_prune :: "real \<Rightarrow> trail \<Rightarrow> trail" where
  "spec_fade_prune fadeSpeed tr =
     tr\<lparr>points := filter (\<lambda>p. \<not> alpha p \<le> 0)
        (map (\<lambda>p. p\<lparr>alpha := max (alpha p - fadeSpeed) 0\<rparr>) (points tr))\<rparr>"

text \<open>
  Nothing is destroyed between two registries: every old trail is still there, at the same
  place and under the same id, and its old points are a prefix of its points.
\<close>

definition kept_and_extended :: "trail list \<Rightarrow> trail list \<Rightarrow> bool" where
  "kept_and_extended old new \<longleftrightarrow>
     length old \<le> length new
     \<and> list_all2 (\<lambda>tr tr'. trailId tr' = trailId tr \<and> prefix (points tr) (points tr'))
           old (take (length old) new)"

text \<open>
  How one operation may treat the points of a trail. A trail that was not in the registry
  before the operation has only points of opacity 1. A trail that was there keeps, under a
  handler, its points unchanged as a prefix, followed by new points of opacity 1; under a
  tick its points are the faded old points that stay positive.
\<close>

definition points_after :: "operation \<Rightarrow> trail option \<Rightarrow> trail \<Rightarrow> bool" where
  "points_after op before tr' =
     (case before of
        None \<Rightarrow> list_all (\<lambda>p. alpha p = 1) (points tr')
      | Some tr \<Rightarrow>
          (if op = Tick
           then points tr' = filter (\<lambda>p. 0 < alpha p) (map fade_point (points tr))
           else prefix (points tr) (points tr')
                \<and> list_all (\<lambda>p. alpha p = 1) (drop (length (points tr)) (points tr'))))"

text \<open>
  The \<open>mod\<close> of the specification on real numbers: the remainder of the floored
  quotient.
\<close>

definition floor_mod :: "real \<Rightarrow> real \<Rightarrow> real" where
  "floor_mod a b = a - b * of_int \<lfloor>a / b\<rfloor>"

section \<open>Properties of the curve interpolator\<close>

lemma catmullRom_at_zero: "catmullRom 0 p0 p1 p2 p3 = p1"
  by (simp add: catmullRom_def)

text \<open>
  Claim C3. For a point sequence of length at least 1 and an anchor index \<open>i\<close> inside
  it, \<open>getInterpolatedPoint points i 0\<close> returns a point, and its position and hue are
  exactly those of \<open>points[i]\<close>: the cubic evaluates to \<open>p1\<close> at \<open>t = 0\<close>, whatever
  the clamped neighbours are.
\<close>

theorem getInterpolatedPoint_at_zero:
  assumes "1 \<le> length pts" and "0 \<le> i" and "i < int (length pts)"
  shows "\<exists>q. getInterpolatedPoint pts i 0 = Inr q
           \<and> point_x q = point_x (pts ! nat i)
           \<and> point_y q = point_y (pts ! nat i)
           \<and> hue q = hue (pts ! nat i)"
  using assms by (simp add: getInterpolatedPoint_def Let_def catmullRom_at_zero)

theorem getInterpolatedPoint_at_zero_witness:
  "getInterpolatedPoint
     [\<lparr>point_x = 3, point_y = 4, alpha = 1, hue = 30\<rparr>,
      \<lparr>point_x = 7, point_y = 9, alpha = 1 / 2, hue = 50\<rparr>] 1 0
   = Inr \<lparr>point_x = 7, point_y = 9, alpha = 1 / 2, hue = 50\<rparr>"
  using getInterpolatedPoint_at_zero
    [of "[\<lparr>point_x = 3, point_y = 4, alpha = 1, hue = 30\<rparr>,
          \<lparr>point_x = 7, point_y = 9, alpha = 1 / 2, hue = 50\<rparr>]" 1]
  by (simp add: getInterpolatedPoint_def Let_def catmullRom_def)

text \<open>
  Claim C4. For an anchor index inside the sequence and any parameter \<open>t\<close>, the opacity
  that \<open>getInterpolatedPoint\<close> returns is the linear blend
  \<open>p1.alpha + (p2.alpha - p1.alpha) * t\<close> of the anchor and its index-clamped successor,
  cut off below at 0 and above at 1; it lies in \<open>[0, 1]\<close> for every input opacity.
\<close>

theorem getInterpolatedPoint_alpha_linear_clamped:
  assumes "0 \<le> i" and "i < int (length pts)"
  shows "\<exists>q. getInterpolatedPoint pts i t = Inr q
           \<and> alpha q =
               max 0 (min 1
                 (alpha (pts ! nat i)
                  + (alpha (pts ! nat (min (int (length pts) - 1) (i + 1)))
                     - alpha (pts ! nat i)) * t))
           \<and> 0 \<le> alpha q \<and> alpha q \<le> 1"
  using assms by (simp add: getInterpolatedPoint_def Let_def)

theorem getInterpolatedPoint_alpha_linear_clamped_witness:
  "\<exists>q. getInterpolatedPoint
          [\<lparr>point_x = 0, point_y = 0, alpha = 7, hue = 0\<rparr>,
           \<lparr>point_x = 8, point_y = 0, alpha = - 3, hue = 90\<rparr>,
           \<lparr>point_x = 8, point_y = 8, alpha = 1 / 4, hue = 180\<rparr>] 1 (1 / 2) = Inr q
        \<and> alpha q = 0 \<and> 0 \<le> alpha q \<and> alpha q \<le> 1"
  using getInterpolatedPoint_alpha_linear_clamped
    [of 1 "[\<lparr>point_x = 0, point_y = 0, alpha = 7, hue = 0\<rparr>,
            \<lparr>point_x = 8, point_y = 0, alpha = - 3, hue = 90\<rparr>,
            \<lparr>point_x = 8, point_y = 8, alpha = 1 / 4, hue = 180\<rparr>]" "1 / 2"]
  by simp

section \<open>The invariant holds in every reachable state\<close>

lemma js_rem_nonneg:
  assumes "0 \<le> a" and "0 < b"
  shows "js_rem a b = a - b * of_int \<lfloor>a / b\<rfloor>"
  using assms by (simp add: js_rem_def)

lemma js_rem_range:
  assumes "0 \<le> a" and "0 < b"
  shows "0 \<le> js_rem a b \<and> js_rem a b < b"
  using assms floor_divide_lower [of b a] floor_divide_upper [of b a]
  by (simp add: js_rem_nonneg algebra_simps)

lemma state_inv_initial: "state_inv initial_state"
  by (simp add: state_inv_def initial_state_def)

lemma trail_ok_mono: "trail_ok c tr \<Longrightarrow> c \<le> c' \<Longrightarrow> trail_ok c' tr"
  by (simp add: trail_ok_def)

lemma state_inv_handleStart:
  assumes "state_inv s"
  shows "state_inv (handleStart now e s)"
proof -
  obtain px py where pos: "getPos e = (px, py)" by (cases "getPos e")
  have r: "0 \<le> js_rem (hueRef s + 30) 360 \<and> js_rem (hueRef s + 30) 360 < 360"
    using assms js_rem_range [of "hueRef s + 30" 360] by (simp add: state_inv_def)
  have old: "list_all (trail_ok (Suc (trailIdCounterRef s))) (trailsRef s)"
    using assms by (auto simp: state_inv_def list_all_iff intro: trail_ok_mono)
  have fresh: "trailIdCounterRef s \<notin> trailId ` set (trailsRef s)"
    using assms by (auto simp: state_inv_def list_all_iff trail_ok_def)
  show ?thesis
    using assms r old fresh
    by (simp add: handleStart_def pos Let_def state_inv_def trail_ok_def)
qed

lemma getDistance_nonneg: "0 \<le> getDistance p q"
  by (simp add: getDistance_def)

lemma trail_ok_append_point:
  assumes "trail_ok c tr"
  shows "trail_ok c (append_point pos tr)"
proof -
  have "0 \<le> (case lastPoint tr of Some lp \<Rightarrow> getDistance pos lp | None \<Rightarrow> 0)"
    by (simp add: getDistance_nonneg split: option.split)
  then show ?thesis
  using assms js_rem_range [of "baseHue tr + js_rem (cumulativeDistance tr + (case lastPoint tr of Some lp \<Rightarrow> getDistance pos lp | None \<Rightarrow> 0)) COLOR_PHASE_DISTANCE / COLOR_PHASE_DISTANCE * 360" 360]
  by (simp add: trail_ok_def append_point_def Let_def)
qed

lemma trailId_append_point: "trailId (append_point pos tr) = trailId tr"
  by (simp add: append_point_def Let_def)

lemma map_trailId_update_trail:
  "(\<And>tr. trailId (f tr) = trailId tr) \<Longrightarrow> map trailId (update_trail tid f trs) = map trailId trs"
  by (induction trs) auto

lemma list_all_update_trail:
  "list_all P trs \<Longrightarrow> (\<And>tr. P tr \<Longrightarrow> P (f tr)) \<Longrightarrow> list_all P (update_trail tid f trs)"
  by (induction trs) auto

lemma state_inv_handleMove:
  assumes "state_inv s"
  shows "state_inv (handleMove e s)"
  using assms
  by (auto simp: handleMove_def state_inv_def Let_def map_trailId_update_trail
      trailId_append_point
      intro!: list_all_update_trail trail_ok_append_point
      split: option.splits)

lemma state_inv_handleEnd:
  assumes "state_inv s"
  shows "state_inv (handleEnd e s)"
  using assms
  by (auto simp: handleEnd_def state_inv_def Let_def split: end_event.splits)


lemma alpha_fade_point: "alpha (fade_point p) = max (alpha p - FADE_SPEED) 0"
  by (simp add: fade_point_def)

lemma trailId_prune_fade: "trailId (prune_points (fade_trail tr)) = trailId tr"
  by (simp add: prune_points_def fade_trail_def)

lemma trail_ok_prune_fade:
  assumes "trail_ok c tr" and "1 < length (points (prune_points (fade_trail tr)))"
  shows "trail_ok c (prune_points (fade_trail tr))"
  using assms
  by (auto simp: trail_ok_def prune_points_def fade_trail_def list_all_iff
      alpha_fade_point FADE_SPEED_def)

lemma state_inv_render:
  assumes "state_inv s"
  shows "state_inv (render s)"
proof -
  have "distinct (map trailId (filter (\<lambda>tr. 1 < length (points tr))
          (map prune_points (map fade_trail (trailsRef s)))))"
    using assms
    by (simp add: state_inv_def distinct_map_filter comp_def trailId_prune_fade)
  moreover have "list_all (trail_ok (trailIdCounterRef s))
       (filter (\<lambda>tr. 1 < length (points tr))
          (map prune_points (map fade_trail (trailsRef s))))"
    using assms
    by (auto simp: state_inv_def list_all_iff intro: trail_ok_prune_fade)
  ultimately show ?thesis
    using assms by (simp add: render_def state_inv_def)
qed

lemma state_inv_step: "state_inv s \<Longrightarrow> state_inv (step op s)"
  by (cases op)
    (simp_all add: state_inv_handleStart state_inv_handleMove state_inv_handleEnd
      state_inv_render)

lemma state_inv_run: "state_inv s \<Longrightarrow> state_inv (run ops s)"
  unfolding run_def by (induction ops arbitrary: s) (simp_all add: state_inv_step)

lemma state_inv_reachable: "state_inv (run ops initial_state)"
  by (rule state_inv_run [OF state_inv_initial])

section \<open>The per-frame update against its specification\<close>

lemma filter_map_cong_kept:
  assumes "\<And>x. P (f x) \<longleftrightarrow> P (g x)"
    and "\<And>x. P (f x) \<Longrightarrow> f x = g x"
  shows "filter P (map f xs) = filter P (map g xs)"
proof (induction xs)
  case Nil
  show ?case by simp
next
  case (Cons x xs)
  show ?case
  proof (cases "P (f x)")
    case True
    with assms(1) [of x] assms(2) [of x] Cons.IH show ?thesis by simp
  next
    case False
    with assms(1) [of x] Cons.IH show ?thesis by simp
  qed
qed

lemma length_filter_le_one: "length xs < 2 \<Longrightarrow> length (filter P xs) \<le> 1"
  using length_filter_le [of P xs] by linarith

lemma prune_fade_short:
  assumes "length (points tr) < 2"
  shows "\<not> 1 < length (points (prune_points (fade_trail tr)))"
  using assms length_filter_le_one [of "points tr" "\<lambda>p. 0 < alpha p"]
  by (simp add: prune_points_def fade_trail_def)

lemma spec_fade_prune_short:
  assumes "length (points tr) < 2"
  shows "\<not> 1 < length (points (spec_fade_prune f tr))"
  using assms
    length_filter_le_one [of "map (\<lambda>p. p\<lparr>alpha := max (alpha p - f) 0\<rparr>) (points tr)"
      "\<lambda>p. \<not> alpha p \<le> 0"]
  by (simp add: spec_fade_prune_def)

lemma prune_fade_long:
  assumes "\<not> length (points tr) < 2"
  shows "prune_points (fade_trail tr) = spec_fade_prune FADE_SPEED tr"
  using assms
  by (simp add: prune_points_def fade_trail_def fade_point_def [abs_def] spec_fade_prune_def not_le)

lemma advanceFrame_alt:
  "advanceFrame f trs = filter (\<lambda>tr. 1 < length (points tr)) (map (spec_fade_prune f) trs)"
  by (simp add: advanceFrame_def Let_def comp_def spec_fade_prune_def [abs_def] not_le)

lemma render_is_advanceFrame:
  "trailsRef (render s) = advanceFrame FADE_SPEED (trailsRef s)"
proof -
  have "filter (\<lambda>tr. 1 < length (points tr))
          (map (\<lambda>tr. prune_points (fade_trail tr)) (trailsRef s))
        = filter (\<lambda>tr. 1 < length (points tr))
          (map (spec_fade_prune FADE_SPEED) (trailsRef s))"
  proof (rule filter_map_cong_kept)
    fix tr
    show "(1 < length (points (prune_points (fade_trail tr))))
        = (1 < length (points (spec_fade_prune FADE_SPEED tr)))"
      using prune_fade_short [of tr] spec_fade_prune_short [of tr FADE_SPEED]
        prune_fade_long [of tr]
      by (cases "length (points tr) < 2") simp_all
  next
    fix tr
    assume "1 < length (points (prune_points (fade_trail tr)))"
    then show "prune_points (fade_trail tr) = spec_fade_prune FADE_SPEED tr"
      using prune_fade_short [of tr] prune_fade_long [of tr] by blast
  qed
  then show ?thesis
    by (simp add: render_def advanceFrame_alt comp_def)
qed

lemma kept_and_extended_refl: "kept_and_extended trs trs"
  by (simp add: kept_and_extended_def list_all2_same)

lemma kept_and_extended_append: "kept_and_extended trs (trs @ extra)"
  by (simp add: kept_and_extended_def list_all2_same)

lemma kept_and_extended_update_trail:
  "kept_and_extended trs (update_trail tid (append_point pos) trs)"
proof -
  have len: "length (update_trail tid f trs) = length trs" for f
    by (induction trs) auto
  have "list_all2 (\<lambda>tr tr'. trailId tr' = trailId tr \<and> prefix (points tr) (points tr'))
          trs (update_trail tid (append_point pos) trs)"
    by (induction trs) (auto simp: list_all2_same append_point_def Let_def)
  then show ?thesis
    by (simp add: kept_and_extended_def len)
qed

lemma handlers_never_destroy:
  assumes "op \<noteq> Tick"
  shows "kept_and_extended (trailsRef s) (trailsRef (step op s))"
proof (cases op)
  case (Start now e)
  then show ?thesis
    by (simp add: handleStart_def Let_def kept_and_extended_append split: prod.split)
next
  case (Move e)
  then show ?thesis
    by (simp add: handleMove_def Let_def kept_and_extended_refl
        kept_and_extended_update_trail split: option.split)
next
  case (End e)
  then show ?thesis
    by (simp add: handleEnd_def Let_def kept_and_extended_refl split: end_event.split)
next
  case Tick
  with assms show ?thesis by simp
qed

lemma findTrailById_None_iff:
  "findTrailById tid trs = None \<longleftrightarrow> tid \<notin> trailId ` set trs"
  by (auto simp: findTrailById_def find_None_iff)

lemma set_map_trailId_update_trail:
  "trailId ` set (update_trail tid (append_point pos) trs) = trailId ` set trs"
  using map_trailId_update_trail [of "append_point pos" tid trs, OF trailId_append_point]
  by (metis list.set_map)

lemma absent_step:
  assumes "tid < trailIdCounterRef s" and "findTrailById tid (trailsRef s) = None"
  shows "tid < trailIdCounterRef (step op s)
         \<and> findTrailById tid (trailsRef (step op s)) = None"
proof (cases op)
  case (Start now e)
  with assms show ?thesis
    by (simp add: findTrailById_None_iff handleStart_def Let_def split: prod.split)
next
  case (Move e)
  with assms show ?thesis
    by (simp add: findTrailById_None_iff handleMove_def Let_def
        set_map_trailId_update_trail split: option.split)
next
  case (End e)
  with assms show ?thesis
    by (simp add: handleEnd_def Let_def split: end_event.split)
next
  case Tick
  with assms show ?thesis
    by (auto simp: findTrailById_None_iff render_def trailId_prune_fade)
qed

lemma absent_run:
  assumes "tid < trailIdCounterRef s" and "findTrailById tid (trailsRef s) = None"
  shows "findTrailById tid (trailsRef (run ops s)) = None"
  using assms unfolding run_def
proof (induction ops arbitrary: s)
  case Nil
  then show ?case by simp
next
  case (Cons op ops)
  from absent_step [OF Cons.prems, of op] Cons.IH [of "step op s"]
  show ?case by simp
qed

lemma dead_trail_removed:
  assumes inv: "state_inv s" and mem: "tr \<in> set (trailsRef s)"
    and dead: "length (filter (\<lambda>p. \<not> alpha p \<le> 0)
                 (map (\<lambda>p. p\<lparr>alpha := max (alpha p - FADE_SPEED) 0\<rparr>) (points tr))) \<le> 1"
  shows "findTrailById (trailId tr) (trailsRef (render s)) = None"
proof -
  have "tr' = tr" if "tr' \<in> set (trailsRef s)" and "trailId tr' = trailId tr" for tr'
    using inv mem that by (auto simp: state_inv_def distinct_map inj_on_def)
  moreover have "\<not> 1 < length (points (spec_fade_prune FADE_SPEED tr))"
    using dead by (simp add: spec_fade_prune_def)
  ultimately have "trailId tr \<notin> trailId ` set (advanceFrame FADE_SPEED (trailsRef s))"
    by (auto simp: advanceFrame_alt spec_fade_prune_def)
  then show ?thesis
    by (simp add: findTrailById_None_iff render_is_advanceFrame)
qed

lemma run_Cons: "run (op # ops) s = run ops (step op s)"
  by (simp add: run_def)

lemma run_snoc: "run (ops @ [op]) s = step op (run ops s)"
  by (simp add: run_def)

lemma run_ticks_fresh_pair:
  assumes "real n * FADE_SPEED < 1"
  shows "run (replicate n Tick)
           (s\<lparr>trailsRef := [tr\<lparr>points := [p\<lparr>alpha := 1\<rparr>, q\<lparr>alpha := 1\<rparr>]\<rparr>]\<rparr>)
         = s\<lparr>trailsRef := [tr\<lparr>points := [p\<lparr>alpha := 1 - real n * FADE_SPEED\<rparr>,
                                           q\<lparr>alpha := 1 - real n * FADE_SPEED\<rparr>]\<rparr>]\<rparr>"
  using assms
proof (induction n)
  case 0
  show ?case by (simp add: run_def)
next
  case (Suc n)
  have lt: "real n * FADE_SPEED < 1"
    using Suc.prems by (simp add: FADE_SPEED_def)
  have pos: "0 < 1 - real n * FADE_SPEED - FADE_SPEED"
    using Suc.prems by (simp add: algebra_simps)
  have "run (replicate (Suc n) Tick)
          (s\<lparr>trailsRef := [tr\<lparr>points := [p\<lparr>alpha := 1\<rparr>, q\<lparr>alpha := 1\<rparr>]\<rparr>]\<rparr>)
        = render (run (replicate n Tick)
          (s\<lparr>trailsRef := [tr\<lparr>points := [p\<lparr>alpha := 1\<rparr>, q\<lparr>alpha := 1\<rparr>]\<rparr>]\<rparr>))"
    using run_snoc [of "replicate n Tick" Tick] by (simp add: replicate_append_same)
  also have "\<dots> = s\<lparr>trailsRef := [tr\<lparr>points :=
      [p\<lparr>alpha := 1 - real (Suc n) * FADE_SPEED\<rparr>,
       q\<lparr>alpha := 1 - real (Suc n) * FADE_SPEED\<rparr>]\<rparr>]\<rparr>"
    using pos
    by (simp add: Suc.IH [OF lt] render_def fade_trail_def prune_points_def fade_point_def
        algebra_simps max_def)
  finally show ?case .
qed

lemma start_mouse_initial:
  "handleStart now (MouseEvent mx my) initial_state =
     \<lparr>trailsRef =
        [\<lparr>points = [\<lparr>point_x = mx, point_y = my, alpha = 1, hue = 30\<rparr>,
                    \<lparr>point_x = mx, point_y = my, alpha = 1, hue = 30\<rparr>],
          baseHue = 30, cumulativeDistance = 0, lastPoint = Some (mx, my),
          lastUpdateTime = now, trailId = 0\<rparr>],
      hueRef = 30, activeTrailsMap = [], activeMouseTrailRef = Some 0,
      trailIdCounterRef = 1, isDrawingRef = True\<rparr>"
  by (simp add: handleStart_def initial_state_def js_rem_def)

lemma held_mouse_after_ticks:
  assumes "real n * FADE_SPEED < 1"
  shows "run (Start now (MouseEvent mx my) # replicate n Tick) initial_state =
     \<lparr>trailsRef =
        [\<lparr>points = [\<lparr>point_x = mx, point_y = my, alpha = 1 - real n * FADE_SPEED, hue = 30\<rparr>,
                    \<lparr>point_x = mx, point_y = my, alpha = 1 - real n * FADE_SPEED, hue = 30\<rparr>],
          baseHue = 30, cumulativeDistance = 0, lastPoint = Some (mx, my),
          lastUpdateTime = now, trailId = 0\<rparr>],
      hueRef = 30, activeTrailsMap = [], activeMouseTrailRef = Some 0,
      trailIdCounterRef = 1, isDrawingRef = True\<rparr>"
  using run_ticks_fresh_pair [OF assms,
      where s = "handleStart now (MouseEvent mx my) initial_state"
        and tr = "hd (trailsRef (handleStart now (MouseEvent mx my) initial_state))"
        and p = "\<lparr>point_x = mx, point_y = my, alpha = 1, hue = 30\<rparr>"
        and q = "\<lparr>point_x = mx, point_y = my, alpha = 1, hue = 30\<rparr>"]
  by (simp add: run_Cons start_mouse_initial)

section \<open>Destruction of points and trails\<close>

text \<open>
  Claim C1. One tick changes nothing but the registry, and changes it as
  \<open>advanceFrame FADE_SPEED\<close> says: fade every point with floor 0, drop the points of
  opacity \<open>\<le> 0\<close>, drop the trails left with at most one point. No pointer handler
  destroys a trail or a point. In a reachable state, a trail whose point count after the
  cleanup is at most 1 is not found under its id after the tick, nor after any further
  operations, trail creations included.
\<close>

theorem cleanup_is_sole_destruction:
  "render s = s\<lparr>trailsRef := advanceFrame FADE_SPEED (trailsRef s)\<rparr>
   \<and> (op \<noteq> Tick \<longrightarrow> kept_and_extended (trailsRef s) (trailsRef (step op s)))
   \<and> (\<forall>tr \<in> set (trailsRef (run ops initial_state)).
         length (filter (\<lambda>p. \<not> alpha p \<le> 0)
           (map (\<lambda>p. p\<lparr>alpha := max (alpha p - FADE_SPEED) 0\<rparr>) (points tr))) \<le> 1
         \<longrightarrow> findTrailById (trailId tr)
               (trailsRef (run ops' (render (run ops initial_state)))) = None)"
proof (intro conjI ballI impI)
  show "render s = s\<lparr>trailsRef := advanceFrame FADE_SPEED (trailsRef s)\<rparr>"
    using render_is_advanceFrame [of s] by (simp add: render_def)
next
  assume "op \<noteq> Tick"
  then show "kept_and_extended (trailsRef s) (trailsRef (step op s))"
    by (rule handlers_never_destroy)
next
  fix tr
  assume mem: "tr \<in> set (trailsRef (run ops initial_state))"
    and dead: "length (filter (\<lambda>p. \<not> alpha p \<le> 0)
           (map (\<lambda>p. p\<lparr>alpha := max (alpha p - FADE_SPEED) 0\<rparr>) (points tr))) \<le> 1"
  have inv: "state_inv (run ops initial_state)"
    by (rule state_inv_reachable)
  from inv mem have "trailId tr < trailIdCounterRef (render (run ops initial_state))"
    by (simp add: state_inv_def list_all_iff trail_ok_def render_def)
  moreover have "findTrailById (trailId tr) (trailsRef (render (run ops initial_state))) = None"
    using inv mem dead by (rule dead_trail_removed)
  ultimately show "findTrailById (trailId tr)
      (trailsRef (run ops' (render (run ops initial_state)))) = None"
    by (rule absent_run)
qed

theorem cleanup_is_sole_destruction_witness:
  "Move (MouseEvent 3 4) \<noteq> Tick
   \<and> (let s = run (Start 0 (MouseEvent 10 10) # replicate 166 Tick) initial_state;
           tr = hd (trailsRef s)
       in tr \<in> set (trailsRef s)
          \<and> trailId tr = 0
          \<and> length (filter (\<lambda>p. \<not> alpha p \<le> 0)
               (map (\<lambda>p. p\<lparr>alpha := max (alpha p - FADE_SPEED) 0\<rparr>) (points tr))) \<le> 1
          \<and> findTrailById 0
               (trailsRef (run [Start 5 (MouseEvent 20 20), Tick] (render s))) = None)"
proof -
  have small: "real 166 * FADE_SPEED < 1"
    by (simp add: FADE_SPEED_def)
  note s166 = held_mouse_after_ticks [OF small, of 0 10 10]
  show ?thesis
    using cleanup_is_sole_destruction
      [of initial_state "Move (MouseEvent 3 4)"
          "Start 0 (MouseEvent 10 10) # replicate 166 Tick"
          "[Start 5 (MouseEvent 20 20), Tick]"]
    by (simp add: s166 Let_def FADE_SPEED_def)
qed

section \<open>Registered trails have at least two points\<close>

text \<open>
  Claim C10. In every state that a history of the component reaches, each trail of the
  registry holds at least two points.
\<close>

theorem registered_trail_has_two_points:
  "list_all (\<lambda>tr. 2 \<le> length (points tr)) (trailsRef (run ops initial_state))"
  using state_inv_reachable [of ops]
  by (simp add: state_inv_def trail_ok_def list_all_iff)

theorem registered_trail_has_two_points_witness:
  "trailsRef (run [Start 0 (MouseEvent 10 10), Tick] initial_state) \<noteq> []
   \<and> list_all (\<lambda>tr. 2 \<le> length (points tr))
        (trailsRef (run [Start 0 (MouseEvent 10 10), Tick] initial_state))"
  using registered_trail_has_two_points [of "[Start 0 (MouseEvent 10 10), Tick]"]
  by (simp add: run_Cons run_def start_mouse_initial render_def fade_trail_def
      prune_points_def fade_point_def FADE_SPEED_def)

section \<open>Opacity never increases\<close>

lemma fade_point_le:
  assumes "0 \<le> alpha p"
  shows "alpha (fade_point p) \<le> alpha p \<and> 0 \<le> alpha (fade_point p)"
  using assms by (simp add: fade_point_def FADE_SPEED_def)

lemma fade_point_funpow:
  assumes "0 \<le> alpha p" and "alpha p \<le> 1"
  shows "0 \<le> alpha ((fade_point ^^ n) p) \<and> alpha ((fade_point ^^ n) p) \<le> 1
         \<and> alpha ((fade_point ^^ Suc n) p) \<le> alpha ((fade_point ^^ n) p)"
proof (induction n)
  case 0
  with assms fade_point_le [of p] show ?case by simp
next
  case (Suc n)
  with fade_point_le [of "(fade_point ^^ n) p"] fade_point_le [of "(fade_point ^^ Suc n) p"]
  show ?case by simp
qed

lemma findTrailById_distinct:
  assumes "distinct (map trailId trs)" and "tr \<in> set trs"
  shows "findTrailById (trailId tr) trs = Some tr"
  using assms by (induction trs) (auto simp: findTrailById_def)

lemma in_update_trail:
  assumes "tr' \<in> set (update_trail tid f trs)"
  shows "tr' \<in> set trs \<or> (\<exists>tr0 \<in> set trs. trailId tr0 = tid \<and> tr' = f tr0)"
  using assms by (induction trs) (auto split: if_splits)

lemma points_after_same:
  assumes "distinct (map trailId trs)" and "tr' \<in> set trs" and "op \<noteq> Tick"
  shows "points_after op (findTrailById (trailId tr') trs) tr'"
  using assms by (simp add: findTrailById_distinct points_after_def)

lemma points_after_handleStart:
  assumes inv: "state_inv s" and mem: "tr' \<in> set (trailsRef (handleStart now e s))"
  shows "points_after (Start now e) (findTrailById (trailId tr') (trailsRef s)) tr'"
proof -
  obtain px py where pos: "getPos e = (px, py)" by (cases "getPos e")
  from mem pos consider (old) "tr' \<in> set (trailsRef s)"
    | (new) "trailId tr' = trailIdCounterRef s" "list_all (\<lambda>p. alpha p = 1) (points tr')"
    by (auto simp: handleStart_def Let_def)
  then show ?thesis
  proof cases
    case old
    with inv show ?thesis by (simp add: points_after_same state_inv_def)
  next
    case new
    from inv have "trailIdCounterRef s \<notin> trailId ` set (trailsRef s)"
      by (auto simp: state_inv_def list_all_iff trail_ok_def)
    then have "findTrailById (trailId tr') (trailsRef s) = None"
      using new(1) by (simp add: findTrailById_None_iff)
    with new(2) show ?thesis by (simp add: points_after_def)
  qed
qed

lemma points_after_handleMove:
  assumes inv: "state_inv s" and mem: "tr' \<in> set (trailsRef (handleMove e s))"
  shows "points_after (Move e) (findTrailById (trailId tr') (trailsRef s)) tr'"
proof -
  have d: "distinct (map trailId (trailsRef s))"
    using inv by (simp add: state_inv_def)
  have "trailsRef (handleMove e s) = trailsRef s
      \<or> (\<exists>tid. trailsRef (handleMove e s)
               = update_trail tid (append_point (getPos e)) (trailsRef s))"
    by (auto simp: handleMove_def Let_def split: option.splits)
  then have "tr' \<in> set (trailsRef s)
      \<or> (\<exists>tr0 \<in> set (trailsRef s). tr' = append_point (getPos e) tr0)"
  proof
    assume "trailsRef (handleMove e s) = trailsRef s"
    with mem show ?thesis by simp
  next
    assume "\<exists>tid. trailsRef (handleMove e s)
               = update_trail tid (append_point (getPos e)) (trailsRef s)"
    then obtain tid where "trailsRef (handleMove e s)
               = update_trail tid (append_point (getPos e)) (trailsRef s)" ..
    with mem have "tr' \<in> set (update_trail tid (append_point (getPos e)) (trailsRef s))"
      by simp
    from in_update_trail [OF this] show ?thesis by blast
  qed
  then consider (old) "tr' \<in> set (trailsRef s)"
    | (moved) tr0 where "tr0 \<in> set (trailsRef s)" "tr' = append_point (getPos e) tr0"
    by blast
  then show ?thesis
  proof cases
    case old
    with d show ?thesis by (simp add: points_after_same)
  next
    case moved
    from d moved(1) have "findTrailById (trailId tr0) (trailsRef s) = Some tr0"
      by (rule findTrailById_distinct)
    with moved(2) show ?thesis
      by (simp add: points_after_def trailId_append_point)
        (simp add: append_point_def Let_def)
  qed
qed

lemma points_after_handleEnd:
  assumes inv: "state_inv s" and mem: "tr' \<in> set (trailsRef (handleEnd e s))"
  shows "points_after (End e) (findTrailById (trailId tr') (trailsRef s)) tr'"
proof -
  have "trailsRef (handleEnd e s) = trailsRef s"
    by (simp add: handleEnd_def Let_def split: end_event.split)
  with inv mem show ?thesis
    by (simp add: points_after_same state_inv_def)
qed

lemma points_after_render:
  assumes inv: "state_inv s" and mem: "tr' \<in> set (trailsRef (render s))"
  shows "points_after Tick (findTrailById (trailId tr') (trailsRef s)) tr'"
proof -
  from mem obtain tr0 where tr0: "tr0 \<in> set (trailsRef s)"
    and eq: "tr' = prune_points (fade_trail tr0)"
    by (auto simp: render_def)
  from inv tr0 have long: "\<not> length (points tr0) < 2"
    by (auto simp: state_inv_def list_all_iff trail_ok_def)
  from inv tr0 have "findTrailById (trailId tr0) (trailsRef s) = Some tr0"
    by (simp add: findTrailById_distinct state_inv_def)
  with eq long show ?thesis
    by (simp add: points_after_def trailId_prune_fade)
      (simp add: prune_points_def fade_trail_def)
qed

lemma points_after_step:
  assumes "state_inv s" and "tr' \<in> set (trailsRef (step op s))"
  shows "points_after op (findTrailById (trailId tr') (trailsRef s)) tr'"
  using assms
  by (cases op)
    (simp_all add: points_after_handleStart points_after_handleMove
      points_after_handleEnd points_after_render)

text \<open>
  Claim C2. Opacity only goes down. In a reachable state every stored opacity is positive
  and at most 1. One operation leaves a trail that it finds in the registry with its old
  points unchanged and new points of opacity 1 behind them (a handler), or with its faded
  old points that stay positive (a tick); a trail that it adds has opacity 1 throughout.
  Fading a point of opacity in \<open>[0, 1]\<close> does not raise the opacity and keeps it in
  \<open>[0, 1]\<close>, however often it is applied.
\<close>

theorem alpha_never_increases:
  "list_all (\<lambda>tr. list_all (\<lambda>p. 0 < alpha p \<and> alpha p \<le> 1) (points tr))
     (trailsRef (run ops initial_state))
   \<and> list_all
       (\<lambda>tr'. points_after op
          (findTrailById (trailId tr') (trailsRef (run ops initial_state))) tr')
       (trailsRef (step op (run ops initial_state)))
   \<and> (0 \<le> alpha p \<and> alpha p \<le> 1 \<longrightarrow>
        0 \<le> alpha ((fade_point ^^ n) p) \<and> alpha ((fade_point ^^ n) p) \<le> 1
        \<and> alpha ((fade_point ^^ Suc n) p) \<le> alpha ((fade_point ^^ n) p))"
proof -
  have a: "list_all (\<lambda>tr. list_all (\<lambda>p. 0 < alpha p \<and> alpha p \<le> 1) (points tr))
     (trailsRef (run ops initial_state))"
    using state_inv_reachable [of ops]
    by (simp add: state_inv_def trail_ok_def list_all_iff)
  have b: "list_all
       (\<lambda>tr'. points_after op
          (findTrailById (trailId tr') (trailsRef (run ops initial_state))) tr')
       (trailsRef (step op (run ops initial_state)))"
    using points_after_step [OF state_inv_reachable [of ops], of _ op]
    by (simp add: list_all_iff)
  have c: "0 \<le> alpha ((fade_point ^^ n) p) \<and> alpha ((fade_point ^^ n) p) \<le> 1
        \<and> alpha ((fade_point ^^ Suc n) p) \<le> alpha ((fade_point ^^ n) p)"
    if "0 \<le> alpha p \<and> alpha p \<le> 1"
    using that fade_point_funpow [of p n] by blast
  from a b c show ?thesis by blast
qed

theorem alpha_never_increases_witness:
  "(0 \<le> alpha \<lparr>point_x = 10, point_y = 10, alpha = 1, hue = 30\<rparr>
    \<and> alpha \<lparr>point_x = 10, point_y = 10, alpha = 1, hue = 30\<rparr> \<le> 1)
   \<and> alpha ((fade_point ^^ Suc 1) \<lparr>point_x = 10, point_y = 10, alpha = 1, hue = 30\<rparr>)
       \<le> alpha ((fade_point ^^ 1) \<lparr>point_x = 10, point_y = 10, alpha = 1, hue = 30\<rparr>)
   \<and> trailsRef (step Tick (run [Start 0 (MouseEvent 10 10)] initial_state)) \<noteq> []
   \<and> list_all
       (\<lambda>tr'. points_after Tick
          (findTrailById (trailId tr')
             (trailsRef (run [Start 0 (MouseEvent 10 10)] initial_state))) tr')
       (trailsRef (step Tick (run [Start 0 (MouseEvent 10 10)] initial_state)))"
  using alpha_never_increases
    [of "[Start 0 (MouseEvent 10 10)]" Tick
        "\<lparr>point_x = 10, point_y = 10, alpha = 1, hue = 30\<rparr>" 1]
  by (simp add: run_Cons run_def start_mouse_initial render_def fade_trail_def
      prune_points_def fade_point_def FADE_SPEED_def)

section \<open>Pointer moves\<close>

lemma js_rem_floor_mod:
  assumes "0 \<le> a" and "0 < b"
  shows "js_rem a b = floor_mod a b"
  using assms by (simp add: js_rem_nonneg floor_mod_def)

lemma js_rem_multiple: "js_rem (of_int k * COLOR_PHASE_DISTANCE) COLOR_PHASE_DISTANCE = 0"
  by (simp add: js_rem_def COLOR_PHASE_DISTANCE_def)

lemma js_rem_850: "js_rem 850 COLOR_PHASE_DISTANCE / COLOR_PHASE_DISTANCE = 625 / 10000"
  by (simp add: js_rem_def COLOR_PHASE_DISTANCE_def)

lemma findTrailById_update_trail:
  assumes "findTrailById tid trs = Some tr" and "trailId (f tr) = trailId tr"
  shows "findTrailById tid (update_trail tid f trs) = Some (f tr)"
  using assms by (induction trs) (auto simp: findTrailById_def split: if_splits)

lemma handleMove_accepted:
  assumes "boundTrailId e s = Some tid"
    and "findTrailById tid (trailsRef s) = Some tr"
    and "lastPoint tr = Some lp"
    and "MIN_DISTANCE \<le> getDistance (getPos e) lp"
  shows "handleMove e s
         = s\<lparr>trailsRef := update_trail tid (append_point (getPos e)) (trailsRef s)\<rparr>"
  using assms by (simp add: handleMove_def not_less [symmetric])

lemma getDistance_horizontal: "getDistance (a, b) (c, b) = \<bar>a - c\<bar>"
  by (simp add: getDistance_def)

text \<open>
  Claim C5. A move that is bound to a trail of the registry and lands at least
  \<open>MIN_DISTANCE\<close> from the trail's last position appends one point of opacity 1 at the
  event position. Its hue is
  \<open>(baseHue + 360 * ((cd % COLOR_PHASE_DISTANCE) / COLOR_PHASE_DISTANCE)) % 360\<close>, where
  \<open>cd\<close> is the distance travelled with the new segment added, and \<open>cd\<close> is stored.
  With a base hue and a distance that are not negative, as in every reachable state, \<open>%\<close>
  is the floored \<open>mod\<close>. If \<open>cd = 850\<close>, the colour progress is \<open>0.0625\<close> and the
  hue is \<open>(baseHue + 22.5) % 360\<close>; if \<open>cd\<close> is an integer multiple of
  \<open>COLOR_PHASE_DISTANCE\<close>, the hue is \<open>baseHue % 360\<close>.
\<close>

theorem accepted_move_hue:
  assumes "boundTrailId e s = Some tid"
    and "findTrailById tid (trailsRef s) = Some tr"
    and "lastPoint tr = Some lp"
    and "MIN_DISTANCE \<le> getDistance (getPos e) lp"
  shows "let cd = cumulativeDistance tr + getDistance (getPos e) lp;
             colorProgress = js_rem cd COLOR_PHASE_DISTANCE / COLOR_PHASE_DISTANCE;
             h = js_rem (baseHue tr + 360 * colorProgress) 360
         in findTrailById tid (trailsRef (handleMove e s))
              = Some (tr\<lparr>cumulativeDistance := cd,
                       points := points tr @
                         [\<lparr>point_x = fst (getPos e), point_y = snd (getPos e),
                           alpha = 1, hue = h\<rparr>],
                       lastPoint := Some (getPos e)\<rparr>)
            \<and> (0 \<le> baseHue tr \<and> 0 \<le> cumulativeDistance tr \<longrightarrow>
                 h = floor_mod (baseHue tr
                       + 360 * (floor_mod cd COLOR_PHASE_DISTANCE / COLOR_PHASE_DISTANCE)) 360)
            \<and> (cd = 850 \<longrightarrow>
                 colorProgress = 625 / 10000 \<and> h = js_rem (baseHue tr + 225 / 10) 360)
            \<and> (\<forall>k::int. cd = of_int k * COLOR_PHASE_DISTANCE \<longrightarrow> h = js_rem (baseHue tr) 360)"
proof -
  define cd where "cd = cumulativeDistance tr + getDistance (getPos e) lp"
  define cp where "cp = js_rem cd COLOR_PHASE_DISTANCE / COLOR_PHASE_DISTANCE"
  define h where "h = js_rem (baseHue tr + 360 * cp) 360"
  have ap: "append_point (getPos e) tr
      = tr\<lparr>cumulativeDistance := cd,
           points := points tr @
             [\<lparr>point_x = fst (getPos e), point_y = snd (getPos e), alpha = 1, hue = h\<rparr>],
           lastPoint := Some (getPos e)\<rparr>"
    using assms(3) by (simp add: append_point_def Let_def cd_def cp_def h_def mult.commute)
  have found: "findTrailById tid (trailsRef (handleMove e s)) = Some (append_point (getPos e) tr)"
    using findTrailById_update_trail [OF assms(2), of "append_point (getPos e)"]
    by (simp add: handleMove_accepted [OF assms] trailId_append_point)
  have floored: "h = floor_mod (baseHue tr
        + 360 * (floor_mod cd COLOR_PHASE_DISTANCE / COLOR_PHASE_DISTANCE)) 360"
    if nn: "0 \<le> baseHue tr \<and> 0 \<le> cumulativeDistance tr"
  proof -
    have cd0: "0 \<le> cd"
      using nn getDistance_nonneg [of "getPos e" lp] by (simp add: cd_def)
    have inner: "js_rem cd COLOR_PHASE_DISTANCE = floor_mod cd COLOR_PHASE_DISTANCE"
      using cd0 by (simp add: js_rem_floor_mod COLOR_PHASE_DISTANCE_def)
    have "0 \<le> js_rem cd COLOR_PHASE_DISTANCE"
      using cd0 js_rem_range [of cd COLOR_PHASE_DISTANCE]
      by (simp add: COLOR_PHASE_DISTANCE_def)
    then have "0 \<le> baseHue tr + 360 * cp"
      using nn by (simp add: cp_def COLOR_PHASE_DISTANCE_def)
    then show ?thesis
      by (simp add: h_def js_rem_floor_mod cp_def inner)
  qed
  have at850: "cp = 625 / 10000 \<and> h = js_rem (baseHue tr + 225 / 10) 360" if "cd = 850"
    using that by (simp add: cp_def h_def js_rem_850)
  have full: "h = js_rem (baseHue tr) 360" if "cd = of_int k * COLOR_PHASE_DISTANCE" for k :: int
    using that by (simp add: cp_def h_def js_rem_multiple)
  from found ap floored at850 full show ?thesis
    unfolding Let_def cd_def [symmetric] cp_def [symmetric] h_def [symmetric]
    by (simp, blast)
qed

theorem accepted_move_hue_witness:
  "boundTrailId (MouseEvent 850 0) (handleStart 0 (MouseEvent 0 0) initial_state) = Some 0
   \<and> MIN_DISTANCE \<le> getDistance (getPos (MouseEvent 850 0)) (0, 0)
   \<and> map_option (\<lambda>tr. map hue (points tr))
         (findTrailById 0
           (trailsRef (handleMove (MouseEvent 850 0)
              (handleStart 0 (MouseEvent 0 0) initial_state))))
       = Some [30, 30, 525 / 10]
   \<and> MIN_DISTANCE \<le> getDistance (getPos (MouseEvent 1600 0)) (0, 0)
   \<and> map_option (\<lambda>tr. (cumulativeDistance tr, map hue (points tr)))
         (findTrailById 0
           (trailsRef (handleMove (MouseEvent 1600 0)
              (handleStart 0 (MouseEvent 0 0) initial_state))))
       = Some (2 * COLOR_PHASE_DISTANCE, [30, 30, 30])"
proof -
  let ?s = "handleStart 0 (MouseEvent 0 0) initial_state"
  let ?tr = "\<lparr>points = [\<lparr>point_x = 0, point_y = 0, alpha = 1, hue = 30\<rparr>,
                        \<lparr>point_x = 0, point_y = 0, alpha = 1, hue = 30\<rparr>],
              baseHue = 30, cumulativeDistance = 0, lastPoint = Some (0, 0),
              lastUpdateTime = 0, trailId = 0\<rparr>"
  have b: "boundTrailId (MouseEvent mx my) ?s = Some 0" for mx my
    by (simp add: boundTrailId_def start_mouse_initial)
  have f: "findTrailById 0 (trailsRef ?s) = Some ?tr"
    by (simp add: findTrailById_def start_mouse_initial)
  have l: "lastPoint ?tr = Some (0, 0)"
    by simp
  have d: "getDistance (850, 0) (0, 0) = 850"
    using getDistance_horizontal [of 850 0 0] by simp
  have m: "MIN_DISTANCE \<le> getDistance (getPos (MouseEvent 850 0)) (0, 0)"
    by (simp add: d MIN_DISTANCE_def)
  have d': "getDistance (1600, 0) (0, 0) = 1600"
    using getDistance_horizontal [of 1600 0 0] by simp
  have m': "MIN_DISTANCE \<le> getDistance (getPos (MouseEvent 1600 0)) (0, 0)"
    by (simp add: d' MIN_DISTANCE_def)
  have one: "map_option (\<lambda>tr. map hue (points tr))
         (findTrailById 0 (trailsRef (handleMove (MouseEvent 850 0) ?s)))
       = Some [30, 30, 525 / 10]"
    using accepted_move_hue [OF b f l m]
    by (simp add: Let_def d js_rem_def COLOR_PHASE_DISTANCE_def)
  have two: "map_option (\<lambda>tr. (cumulativeDistance tr, map hue (points tr)))
         (findTrailById 0 (trailsRef (handleMove (MouseEvent 1600 0) ?s)))
       = Some (2 * COLOR_PHASE_DISTANCE, [30, 30, 30])"
    using accepted_move_hue [OF b f l m']
    by (simp add: Let_def d' js_rem_def COLOR_PHASE_DISTANCE_def)
  from b m one m' two show ?thesis
    by simp
qed

text \<open>
  Claim C6. A move that is bound to a trail of the registry and lands at a distance
  strictly below \<open>MIN_DISTANCE\<close> from the trail's last position changes nothing: no
  point is added, and the distance travelled, the last position, every other trail, the
  bindings and the flags stay as they are.
\<close>

theorem near_move_ignored:
  assumes "boundTrailId e s = Some tid"
    and "findTrailById tid (trailsRef s) = Some tr"
    and "lastPoint tr = Some lp"
    and "getDistance (getPos e) lp < MIN_DISTANCE"
  shows "handleMove e s = s"
  using assms by (simp add: handleMove_def)

theorem near_move_ignored_witness:
  "boundTrailId (MouseEvent (21 / 2) 10) (handleStart 0 (MouseEvent 10 10) initial_state)
     = Some 0
   \<and> getDistance (getPos (MouseEvent (21 / 2) 10)) (10, 10) < MIN_DISTANCE
   \<and> handleMove (MouseEvent (21 / 2) 10) (handleStart 0 (MouseEvent 10 10) initial_state)
       = handleStart 0 (MouseEvent 10 10) initial_state"
proof -
  let ?s = "handleStart 0 (MouseEvent 10 10) initial_state"
  let ?tr = "\<lparr>points = [\<lparr>point_x = 10, point_y = 10, alpha = 1, hue = 30\<rparr>,
                        \<lparr>point_x = 10, point_y = 10, alpha = 1, hue = 30\<rparr>],
              baseHue = 30, cumulativeDistance = 0, lastPoint = Some (10, 10),
              lastUpdateTime = 0, trailId = 0\<rparr>"
  have b: "boundTrailId (MouseEvent (21 / 2) 10) ?s = Some 0"
    by (simp add: boundTrailId_def start_mouse_initial)
  have f: "findTrailById 0 (trailsRef ?s) = Some ?tr"
    by (simp add: findTrailById_def start_mouse_initial)
  have l: "lastPoint ?tr = Some (10, 10)"
    by simp
  have d: "getDistance (getPos (MouseEvent (21 / 2) 10)) (10, 10) < MIN_DISTANCE"
    using getDistance_horizontal [of "21 / 2" 10 10] by (simp add: MIN_DISTANCE_def)
  from near_move_ignored [OF b f l d] b d show ?thesis
    by simp
qed

section \<open>Pointer down\<close>

lemma counter_step:
  "trailIdCounterRef (step op s)
   = (case op of Start now e \<Rightarrow> Suc (trailIdCounterRef s) | _ \<Rightarrow> trailIdCounterRef s)"
  by (cases op)
    (simp_all add: handleStart_def handleMove_def handleEnd_def render_def Let_def
      split: prod.split option.split end_event.split)

lemma map_of_update_same: "map_of (AList.update k v al) k = Some v"
  by (simp add: update_conv')

text \<open>
  What \<open>handleStart\<close> does in a reachable state. It sets the hue anchor to
  \<open>(anchor + 30) % 360\<close>, which is the floored \<open>mod\<close> there; appends to the registry
  one trail with the anchor as base hue, two equal points at the position that \<open>getPos\<close>
  reads, with opacity 1 and that hue, distance 0 and the counter value as id; that id is
  not in the registry before; the counter goes up by one, and no operation but a
  pointer-down changes it. The binding goes to the mouse slot for a mouse event and, for
  a touch event, into the map under the identifier of the first entry of \<open>touches\<close>,
  whichever contact went down.
\<close>

lemma pointer_down_creates_trail:
  "let s = run ops initial_state;
       s' = handleStart now e s;
       bh = js_rem (hueRef s + 30) 360;
       tid = trailIdCounterRef s;
       p = \<lparr>point_x = fst (getPos e), point_y = snd (getPos e), alpha = 1, hue = bh\<rparr>;
       newTrail = \<lparr>points = [p, p], baseHue = bh, cumulativeDistance = 0,
                   lastPoint = Some (getPos e), lastUpdateTime = now, trailId = tid\<rparr>
   in bh = floor_mod (hueRef s + 30) 360
      \<and> hueRef s' = bh
      \<and> trailsRef s' = trailsRef s @ [newTrail]
      \<and> findTrailById tid (trailsRef s) = None
      \<and> findTrailById tid (trailsRef s') = Some newTrail
      \<and> trailIdCounterRef s' = Suc tid
      \<and> trailIdCounterRef (step op s)
          = (case op of Start now' e' \<Rightarrow> Suc tid | _ \<Rightarrow> tid)
      \<and> boundTrailId e s' = Some tid
      \<and> (case e of
            TouchEvent t0 ts cs \<Rightarrow>
              activeTrailsMap s' = AList.update (touch_identifier t0) tid (activeTrailsMap s)
              \<and> activeMouseTrailRef s' = activeMouseTrailRef s
          | MouseEvent mx my \<Rightarrow>
              activeMouseTrailRef s' = Some tid \<and> activeTrailsMap s' = activeTrailsMap s)
      \<and> isDrawingRef s'"
proof -
  define s where "s = run ops initial_state"
  have inv: "state_inv s"
    unfolding s_def by (rule state_inv_reachable)
  have fresh: "findTrailById (trailIdCounterRef s) (trailsRef s) = None"
    using inv by (auto simp: findTrailById_None_iff state_inv_def list_all_iff trail_ok_def)
  have hue0: "js_rem (hueRef s + 30) 360 = floor_mod (hueRef s + 30) 360"
    using inv by (simp add: js_rem_floor_mod state_inv_def)
  have found: "findTrailById (trailIdCounterRef s) (trs @ [tr]) = Some tr"
    if "findTrailById (trailIdCounterRef s) trs = None" "trailId tr = trailIdCounterRef s"
    for trs tr
    using that by (induction trs) (auto simp: findTrailById_def split: if_splits)
  obtain px py where pos: "getPos e = (px, py)" by (cases "getPos e")
  have bound: "boundTrailId e (handleStart now e s) = Some (trailIdCounterRef s)"
    by (cases e) (simp_all add: boundTrailId_def handleStart_def Let_def map_of_update_same
        split: prod.split)
  have binding: "(case e of
            TouchEvent t0 ts cs \<Rightarrow>
              activeTrailsMap (handleStart now e s)
                = AList.update (touch_identifier t0) (trailIdCounterRef s) (activeTrailsMap s)
              \<and> activeMouseTrailRef (handleStart now e s) = activeMouseTrailRef s
          | MouseEvent mx my \<Rightarrow>
              activeMouseTrailRef (handleStart now e s) = Some (trailIdCounterRef s)
              \<and> activeTrailsMap (handleStart now e s) = activeTrailsMap s)"
    by (cases e) (simp_all add: handleStart_def Let_def split: prod.split)
  have rest: "hueRef (handleStart now e s) = js_rem (hueRef s + 30) 360
      \<and> trailsRef (handleStart now e s) = trailsRef s @
          [\<lparr>points = [\<lparr>point_x = px, point_y = py, alpha = 1,
                         hue = js_rem (hueRef s + 30) 360\<rparr>,
                       \<lparr>point_x = px, point_y = py, alpha = 1,
                         hue = js_rem (hueRef s + 30) 360\<rparr>],
            baseHue = js_rem (hueRef s + 30) 360, cumulativeDistance = 0,
            lastPoint = Some (px, py), lastUpdateTime = now,
            trailId = trailIdCounterRef s\<rparr>]
      \<and> trailIdCounterRef (handleStart now e s) = Suc (trailIdCounterRef s)
      \<and> isDrawingRef (handleStart now e s)"
    by (simp add: handleStart_def Let_def pos)
  from rest hue0 fresh bound binding counter_step [of op s] found [OF fresh]
  show ?thesis
    unfolding Let_def s_def [symmetric] by (simp add: pos)
qed

lemma pointer_down_creates_trail_example:
  "let s = run [Start 0 (MouseEvent 10 10)] initial_state;
       e = TouchEvent \<lparr>touch_identifier = 4, clientX = 1, clientY = 2\<rparr> [] [];
       s' = handleStart 7 e s
   in hueRef s' = 60
      \<and> map trailId (trailsRef s') = [0, 1]
      \<and> map points (trailsRef s')
          = [[\<lparr>point_x = 10, point_y = 10, alpha = 1, hue = 30\<rparr>,
              \<lparr>point_x = 10, point_y = 10, alpha = 1, hue = 30\<rparr>],
             [\<lparr>point_x = 1, point_y = 2, alpha = 1, hue = 60\<rparr>,
              \<lparr>point_x = 1, point_y = 2, alpha = 1, hue = 60\<rparr>]]
      \<and> trailIdCounterRef s' = 2
      \<and> boundTrailId e s' = Some 1
      \<and> activeTrailsMap s' = [(4, 1)]
      \<and> activeMouseTrailRef s' = Some 0"
  using pointer_down_creates_trail
    [of "[Start 0 (MouseEvent 10 10)]" 7
        "TouchEvent \<lparr>touch_identifier = 4, clientX = 1, clientY = 2\<rparr> [] []" Tick]
  by (simp add: Let_def run_Cons run_def start_mouse_initial js_rem_def)

text \<open>
  Claim C7, evaluated on a run. Contact 0 is down at \<open>(10, 10)\<close> and bound to trail 0.
  Contact 1 goes down at \<open>(200, 200)\<close>: the touchstart event lists both contacts in
  \<open>touches\<close> and contact 1 in \<open>changedTouches\<close>. The hue anchor, the id, the counter,
  the two equal points of opacity 1 and the distance 0 of the new trail are as the claim
  says. But the two points lie at \<open>(10, 10)\<close>, the position of contact 0, the binding
  is written under identifier 0, where it replaces the binding to trail 0, and the
  contact that went down has no binding.
\<close>

theorem second_pointer_down_binds_other_contact:
  "let t0 = \<lparr>touch_identifier = 0, clientX = 10, clientY = 10\<rparr>;
       t1 = \<lparr>touch_identifier = 1, clientX = 200, clientY = 200\<rparr>;
       s = run [Start 0 (TouchEvent t0 [] [t0])] initial_state;
       s' = handleStart 1 (TouchEvent t0 [t1] [t1]) s
   in hueRef s = 30 \<and> hueRef s' = 60
      \<and> trailIdCounterRef s = 1 \<and> trailIdCounterRef s' = 2
      \<and> findTrailById 1 (trailsRef s) = None
      \<and> findTrailById 1 (trailsRef s')
          = Some \<lparr>points = [\<lparr>point_x = 10, point_y = 10, alpha = 1, hue = 60\<rparr>,
                             \<lparr>point_x = 10, point_y = 10, alpha = 1, hue = 60\<rparr>],
                   baseHue = 60, cumulativeDistance = 0, lastPoint = Some (10, 10),
                   lastUpdateTime = 1, trailId = 1\<rparr>
      \<and> (clientX t1, clientY t1) \<noteq> (10, 10)
      \<and> map_of (activeTrailsMap s) (touch_identifier t0) = Some 0
      \<and> map_of (activeTrailsMap s') (touch_identifier t0) = Some 1
      \<and> map_of (activeTrailsMap s') (touch_identifier t1) = None
      \<and> activeMouseTrailRef s' = None"
  by (simp add: Let_def run_def handleStart_def initial_state_def findTrailById_def
      js_rem_def)

section \<open>Stale bindings\<close>

lemma map_of_filter_stale:
  assumes "distinct (map fst m)" and "map_of m k = Some tid"
  shows "map_of (filter (\<lambda>(k, v). v \<noteq> tid) m) k = None"
  using assms
proof (induction m)
  case Nil
  then show ?case by simp
next
  case (Cons kv m)
  obtain k' v' where kv: "kv = (k', v')" by (cases kv)
  show ?case
  proof (cases "k' = k")
    case True
    with Cons.prems kv have "v' = tid" and "k \<notin> fst ` set m"
      by auto
    then have "map_of (filter (\<lambda>(k, v). v \<noteq> tid) m) k = None"
      by (auto simp: map_of_eq_None_iff)
    with True kv \<open>v' = tid\<close> show ?thesis by simp
  next
    case False
    with Cons kv show ?thesis by simp
  qed
qed

lemma stale_touch_binding_cleared:
  assumes "distinct (map fst (activeTrailsMap s))"
    and "boundTrailId (TouchEvent t0 ts cs) s = Some tid"
    and "findTrailById tid (trailsRef s) = None"
  shows "trailsRef (handleMove (TouchEvent t0 ts cs) s) = trailsRef s
         \<and> boundTrailId (TouchEvent t0 ts cs) (handleMove (TouchEvent t0 ts cs) s) = None
         \<and> (activeTrailsMap (handleMove (TouchEvent t0 ts cs) s) = []
              \<longrightarrow> \<not> isDrawingRef (handleMove (TouchEvent t0 ts cs) s))"
proof -
  from assms(2) have m: "map_of (activeTrailsMap s) (touch_identifier t0) = Some tid"
    by (simp add: boundTrailId_def)
  from assms(2,3) have hm: "handleMove (TouchEvent t0 ts cs) s
      = s\<lparr>activeTrailsMap := filter (\<lambda>(k, v). v \<noteq> tid) (activeTrailsMap s),
           isDrawingRef := (if filter (\<lambda>(k, v). v \<noteq> tid) (activeTrailsMap s) = []
                            then False else isDrawingRef s)\<rparr>"
    by (simp add: handleMove_def Let_def)
  show ?thesis
    using map_of_filter_stale [OF assms(1) m]
    by (simp add: hm boundTrailId_def)
qed

text \<open>
  Claim C8, evaluated on a run. The mouse goes down at \<open>(10, 10)\<close> and is held still
  for 167 ticks, after which its trail has left the registry. The next mouse move finds
  the mouse slot bound to trail 0, which no longer exists; it leaves the registry as it
  is and clears the drawing flag, but the mouse slot still holds trail 0 afterwards.
\<close>

theorem stale_mouse_binding_not_cleared:
  "let s = run (Start 0 (MouseEvent 10 10) # replicate 167 Tick) initial_state;
       s' = handleMove (MouseEvent 50 50) s
   in trailsRef s = []
      \<and> boundTrailId (MouseEvent 50 50) s = Some 0
      \<and> findTrailById 0 (trailsRef s) = None
      \<and> trailsRef s' = []
      \<and> activeMouseTrailRef s' = Some 0
      \<and> boundTrailId (MouseEvent 50 50) s' = Some 0
      \<and> \<not> isDrawingRef s'"
proof -
  have small: "real 166 * FADE_SPEED < 1"
    by (simp add: FADE_SPEED_def)
  have "replicate (166 + 1) Tick = replicate 166 Tick @ replicate 1 Tick"
    by (rule replicate_add)
  then have "Start 0 (MouseEvent 10 10) # replicate 167 Tick
      = (Start 0 (MouseEvent 10 10) # replicate 166 Tick) @ [Tick]"
    by simp
  then have "run (Start 0 (MouseEvent 10 10) # replicate 167 Tick) initial_state
      = render (run (Start 0 (MouseEvent 10 10) # replicate 166 Tick) initial_state)"
    using run_snoc [of "Start 0 (MouseEvent 10 10) # replicate 166 Tick" Tick initial_state]
    by simp
  also have "\<dots> = \<lparr>trailsRef = [], hueRef = 30, activeTrailsMap = [],
      activeMouseTrailRef = Some 0, trailIdCounterRef = 1, isDrawingRef = True\<rparr>"
    by (simp add: held_mouse_after_ticks [OF small] render_def fade_trail_def
        prune_points_def fade_point_def FADE_SPEED_def)
  finally show ?thesis
    by (simp add: Let_def handleMove_def boundTrailId_def findTrailById_def)
qed

section \<open>Two touch contacts\<close>

text \<open>
  Claim C9, evaluated on a run. Contact 0 goes down at \<open>(10, 10)\<close>; then contact 1 goes
  down at \<open>(200, 200)\<close>, and the touchstart event lists both contacts in \<open>touches\<close>
  and contact 1 in \<open>changedTouches\<close>. The handler reads the first entry of
  \<open>touches\<close>: the second trail starts at \<open>(10, 10)\<close>, the binding of contact 0 moves
  from trail 0 to trail 1, and contact 1 has no binding. A later move of contact 1 to
  \<open>(300, 300)\<close> changes nothing.
\<close>

theorem second_touch_rebinds_first:
  "let t0 = \<lparr>touch_identifier = 0, clientX = 10, clientY = 10\<rparr>;
       t1 = \<lparr>touch_identifier = 1, clientX = 200, clientY = 200\<rparr>;
       t1' = \<lparr>touch_identifier = 1, clientX = 300, clientY = 300\<rparr>;
       s1 = handleStart 0 (TouchEvent t0 [] [t0]) initial_state;
       s2 = handleStart 1 (TouchEvent t0 [t1] [t1]) s1;
       s3 = handleMove (TouchEvent t0 [t1'] [t1']) s2
   in activeTrailsMap s1 = [(0, 0)]
      \<and> activeTrailsMap s2 = [(0, 1)]
      \<and> map_of (activeTrailsMap s2) 1 = None
      \<and> map trailId (trailsRef s2) = [0, 1]
      \<and> map lastPoint (trailsRef s2) = [Some (10, 10), Some (10, 10)]
      \<and> s3 = s2"
  by (simp add: Let_def handleStart_def handleMove_def initial_state_def boundTrailId_def
      findTrailById_def getDistance_def MIN_DISTANCE_def js_rem_def)

end
